theory Spec2Isabelle
  imports Complex_Main
begin

section \<open>Data model\<close>

text \<open>
  The session core of the medical-system frontend: the authentication context
  (\<^verbatim>\<open>src/context/AuthContext.tsx\<close>), the axios wrapper (\<^verbatim>\<open>src/api/axios.ts\<close>), its
  sibling \<^verbatim>\<open>apiClient.ts\<close>, the route guard \<^verbatim>\<open>PrivateRoute\<close> and the login page
  (\<^verbatim>\<open>src/pages/Login/Login.tsx\<close>).

  Strings are byte strings. A JavaScript \<^verbatim>\<open>number\<close> is modelled by an exact rational;
  \<^verbatim>\<open>Date.now()\<close> is an integer count of milliseconds and is passed in as \<open>now\<close>.
\<close>

text \<open>\<^verbatim>\<open>interface User { id; username; role }\<close>\<close>

record User =
  id_user :: string
  username :: string
  role_user :: string

text \<open>\<^verbatim>\<open>interface JwtPayload { nameid; unique_name; role; exp }\<close>\<close>

record JwtPayload =
  nameid :: string
  unique_name :: string
  role :: string
  exp_jwt :: rat

text \<open>The only exception the decoder raises.\<close>

datatype error = InvalidTokenError

text \<open>
  The running client: the browser's \<^verbatim>\<open>localStorage\<close>, \<^verbatim>\<open>window.location\<close>, the two
  \<^verbatim>\<open>useState\<close> cells of \<^verbatim>\<open>AuthProvider\<close>, and the requests handed to the network so far.
\<close>

record AxiosRequestConfig =
  url :: string
  http_method :: string
  baseURL :: string
  headers :: "string \<rightharpoonup> string"
  data :: "string option"

record App =
  localStorage :: "string \<rightharpoonup> string"
  location :: string
  isAuthenticated :: bool
  user :: "User option"
  sent :: "AxiosRequestConfig list"

definition getItem :: "string \<Rightarrow> App \<Rightarrow> string option" where
  "getItem k a = localStorage a k"

definition setItem :: "string \<Rightarrow> string \<Rightarrow> App \<Rightarrow> App" where
  "setItem k v a = a\<lparr>localStorage := (localStorage a)(k \<mapsto> v)\<rparr>"

definition removeItem :: "string \<Rightarrow> App \<Rightarrow> App" where
  "removeItem k a = a\<lparr>localStorage := (localStorage a)(k := None)\<rparr>"

section \<open>Token decoding\<close>

text \<open>\<^verbatim>\<open>String.prototype.split\<close> with a one-character separator.\<close>

fun split :: "char \<Rightarrow> string \<Rightarrow> string list" where
  "split c [] = [[]]"
| "split c (x # xs) =
     (if x = c then [] # split c xs
      else (case split c xs of
              p # ps \<Rightarrow> (x # p) # ps
            | [] \<Rightarrow> [[x]]))"

text \<open>
  Modelled from the spec: the token decoder \<^verbatim>\<open>jwtDecode\<close> of the package \<^verbatim>\<open>jwt-decode\<close>,
  which is imported by the sources and is not part of them. A token is a three-part,
  dot-separated credential whose middle part encodes the payload; no signature is
  verified. The decoder takes the second dot-separated part and fails when there is
  none; what it makes of that part (base64url and JSON) is the parameter \<open>parsePart\<close>,
  which yields a payload or fails.
\<close>

definition jwtDecode :: "(string \<Rightarrow> JwtPayload option) \<Rightarrow> string \<Rightarrow> error + JwtPayload" where
  "jwtDecode parsePart token =
     (case split (CHR ''.'') token of
        _ # part # _ \<Rightarrow>
          (case parsePart part of
             None \<Rightarrow> Inl InvalidTokenError
           | Some decoded \<Rightarrow> Inr decoded)
      | _ \<Rightarrow> Inl InvalidTokenError)"

section \<open>Session store (\<^verbatim>\<open>AuthContext.tsx\<close>)\<close>

text \<open>The identity object built from a decoded payload, in both \<^verbatim>\<open>login\<close> and the mount effect.\<close>

definition userOf :: "JwtPayload \<Rightarrow> User" where
  "userOf decoded =
     \<lparr>id_user = nameid decoded, username = unique_name decoded, role_user = role decoded\<rparr>"

text \<open>\<^verbatim>\<open>useState(false)\<close>, \<^verbatim>\<open>useState(null)\<close>: the provider's state when it mounts.\<close>

definition mounted :: "(string \<rightharpoonup> string) \<Rightarrow> string \<Rightarrow> App" where
  "mounted store loc =
     \<lparr>localStorage = store, location = loc, isAuthenticated = False, user = None, sent = []\<rparr>"

text \<open>
  The body of the provider's \<^verbatim>\<open>useEffect\<close> (Initialize). \<^verbatim>\<open>if (token)\<close> is false
  for \<^verbatim>\<open>null\<close> and for the empty string. The \<^verbatim>\<open>try\<close> block catches the decoder's
  exception; nothing is thrown to the caller.
\<close>

definition initialize :: "(string \<Rightarrow> JwtPayload option) \<Rightarrow> int \<Rightarrow> App \<Rightarrow> App" where
  "initialize parsePart now a =
     (case getItem ''token'' a of
        None \<Rightarrow> a
      | Some token \<Rightarrow>
          if token = [] then a
          else
            (case jwtDecode parsePart token of
               Inr decoded \<Rightarrow>
                 (let currentTime = of_int now / 1000 in
                  if exp_jwt decoded > currentTime
                  then a\<lparr>isAuthenticated := True, user := Some (userOf decoded)\<rparr>
                  else removeItem ''token'' a)
             | Inl e \<Rightarrow> removeItem ''token'' a))"

text \<open>
  \<^verbatim>\<open>login(token)\<close>: the storage write comes first; the decoder's exception is not caught,
  so the call ends there with the error and the state cells untouched.
\<close>

definition login :: "(string \<Rightarrow> JwtPayload option) \<Rightarrow> string \<Rightarrow> App \<Rightarrow> (error + unit) \<times> App" where
  "login parsePart token a =
     (let a1 = setItem ''token'' token a in
      case jwtDecode parsePart token of
        Inl e \<Rightarrow> (Inl e, a1)
      | Inr decoded \<Rightarrow>
          (Inr (), a1\<lparr>isAuthenticated := True, user := Some (userOf decoded)\<rparr>))"

text \<open>\<^verbatim>\<open>logout()\<close>\<close>

definition logout :: "App \<Rightarrow> App" where
  "logout a = (removeItem ''token'' a)\<lparr>isAuthenticated := False, user := None\<rparr>"

section \<open>HTTP client wrapper (\<^verbatim>\<open>src/api/axios.ts\<close>)\<close>

text \<open>
  What the remote service answers to a request. A body is read only for its
  \<^verbatim>\<open>token\<close> and \<^verbatim>\<open>message\<close> members.
\<close>

record ResponseData =
  token_of :: "string option"
  message_of :: "string option"

record AxiosResponse =
  status :: nat
  response_data :: ResponseData

text \<open>An axios error: \<^verbatim>\<open>error.response\<close> is absent when no response was received.\<close>

record AxiosError =
  response :: "AxiosResponse option"

text \<open>
  The request interceptor of \<^verbatim>\<open>apiClient\<close>. It reads \<^verbatim>\<open>localStorage\<close>, never the
  provider's state.
\<close>

definition request_interceptor :: "App \<Rightarrow> AxiosRequestConfig \<Rightarrow> AxiosRequestConfig" where
  "request_interceptor a config =
     (case getItem ''token'' a of
        None \<Rightarrow> config
      | Some token \<Rightarrow>
          if token = [] then config
          else config\<lparr>headers := (headers config)(''Authorization'' \<mapsto> ''Bearer '' @ token)\<rparr>)"

text \<open>The response interceptor of \<^verbatim>\<open>apiClient\<close>: the handler of a fulfilled response.\<close>

definition response_fulfilled :: "AxiosResponse \<Rightarrow> App \<Rightarrow> AxiosResponse \<times> App" where
  "response_fulfilled r a = (r, a)"

text \<open>
  The response interceptor of \<^verbatim>\<open>apiClient\<close>: the handler of a rejection. The error is
  always handed on (\<^verbatim>\<open>Promise.reject(error)\<close>).
\<close>

definition response_rejected :: "AxiosError \<Rightarrow> App \<Rightarrow> AxiosError \<times> App" where
  "response_rejected err a =
     (case response err of
        None \<Rightarrow> (err, a)
      | Some r \<Rightarrow>
          if status r = 401
          then (err, (removeItem ''token'' a)\<lparr>location := ''/login''\<rparr>)
          else (err, a))"

text \<open>
  The same handler in the sibling wrapper \<^verbatim>\<open>api\<close> of \<^verbatim>\<open>apiClient.ts\<close> (both copies of
  that file agree on it; the logging is left out).
\<close>

definition api_response_rejected :: "AxiosError \<Rightarrow> App \<Rightarrow> AxiosError \<times> App" where
  "api_response_rejected err a =
     (case response err of
        None \<Rightarrow> (err, a)
      | Some r \<Rightarrow>
          if status r = 401 \<or> status r = 403
          then (err, (removeItem ''token'' a)\<lparr>location := ''/login''\<rparr>)
          else (err, a))"

text \<open>
  \<^verbatim>\<open>API_URL = import.meta.env.VITE_API_URL || 'https://localhost:7200'\<close>
\<close>

definition API_URL :: "string option \<Rightarrow> string" where
  "API_URL env =
     (case env of
        None \<Rightarrow> ''https://localhost:7200''
      | Some u \<Rightarrow> if u = [] then ''https://localhost:7200'' else u)"

text \<open>
  The remote service, as far as the client sees it: it answers a request with a
  response, or not at all (a network-level failure).
\<close>

datatype reply = Reply AxiosResponse | NoReply

text \<open>
  \<^verbatim>\<open>apiClient.post(url, body)\<close>: the instance's defaults, the request interceptor, the
  exchange, then the response interceptor. A status outside 2xx rejects.
\<close>

definition apiClient_post ::
  "string option \<Rightarrow> (AxiosRequestConfig \<Rightarrow> reply) \<Rightarrow> string \<Rightarrow> string \<Rightarrow> App
     \<Rightarrow> (AxiosError + AxiosResponse) \<times> App" where
  "apiClient_post env server u body a =
     (let config = request_interceptor a
            \<lparr>url = u, http_method = ''post'', baseURL = API_URL env,
             headers = [''Content-Type'' \<mapsto> ''application/json''], data = Some body\<rparr>;
          a1 = a\<lparr>sent := sent a @ [config]\<rparr>
      in case server config of
           NoReply \<Rightarrow>
             (case response_rejected \<lparr>response = None\<rparr> a1 of
                (err, a2) \<Rightarrow> (Inl err, a2))
         | Reply r \<Rightarrow>
             if 200 \<le> status r \<and> status r < 300
             then (case response_fulfilled r a1 of (r', a2) \<Rightarrow> (Inr r', a2))
             else (case response_rejected \<lparr>response = Some r\<rparr> a1 of
                     (err, a2) \<Rightarrow> (Inl err, a2)))"

section \<open>Route guard (\<^verbatim>\<open>PrivateRoute\<close>)\<close>

text \<open>
  A React node, as far as the guard looks at it: \<^verbatim>\<open>children ? ... : ...\<close> tests its
  truthiness.
\<close>

datatype ReactNode =
  Undefined | Null | Boolean bool | Text string | Number int | Element string

fun truthy :: "ReactNode \<Rightarrow> bool" where
  "truthy Undefined = False"
| "truthy Null = False"
| "truthy (Boolean b) = b"
| "truthy (Text s) = (s \<noteq> [])"
| "truthy (Number n) = (n \<noteq> 0)"
| "truthy (Element e) = True"

text \<open>
  What the guard renders: \<^verbatim>\<open><Navigate to=... replace />\<close>, the children in a fragment,
  or the router's \<^verbatim>\<open><Outlet />\<close> (the nested route that was asked for).
\<close>

datatype rendered = Navigate string bool | Fragment ReactNode | Outlet

definition PrivateRoute :: "ReactNode \<Rightarrow> App \<Rightarrow> rendered" where
  "PrivateRoute children a =
     (if \<not> isAuthenticated a then Navigate ''/login'' True
      else if truthy children then Fragment children else Outlet)"

text \<open>The guard admits when it renders what was asked for rather than a redirect.\<close>

fun admits :: "rendered \<Rightarrow> bool" where
  "admits (Navigate to repl) = False"
| "admits (Fragment c) = True"
| "admits Outlet = True"

section \<open>Platform codecs\<close>

text \<open>
  Modelled from the spec: the payload codec, which the sources call and do not contain
  (\<^verbatim>\<open>btoa\<close> and \<^verbatim>\<open>JSON.stringify\<close> of the browser on the minting side; base64url and
  \<^verbatim>\<open>JSON.parse\<close> inside \<^verbatim>\<open>jwt-decode\<close> on the reading side). The middle part of a token
  is a base64-encoded JSON object with a subject identifier, a display name, a role and
  a numeric expiry instant in seconds since the epoch.
\<close>

subsection \<open>Base64\<close>

definition b64_alphabet :: string where
  "b64_alphabet = ''ABCDEFGHIJKLMNOPQRSTUVWXYZabcdefghijklmnopqrstuvwxyz0123456789+/''"

definition b64_char :: "nat \<Rightarrow> char" where
  "b64_char n = b64_alphabet ! (n mod 64)"

fun index_of :: "'a \<Rightarrow> 'a list \<Rightarrow> nat option" where
  "index_of x [] = None"
| "index_of x (y # ys) = (if x = y then Some 0 else map_option Suc (index_of x ys))"

definition b64_index :: "char \<Rightarrow> nat option" where
  "b64_index c = index_of c b64_alphabet"

text \<open>\<^verbatim>\<open>btoa\<close>: three bytes become four characters; the tail is padded with \<^verbatim>\<open>=\<close>.\<close>

fun btoa :: "string \<Rightarrow> string" where
  "btoa [] = []"
| "btoa [a] =
     (let m = of_char a :: nat
      in [b64_char (m div 4), b64_char ((m mod 4) * 16), CHR ''='', CHR ''=''])"
| "btoa [a, b] =
     (let m = of_char a :: nat; n = of_char b :: nat
      in [b64_char (m div 4), b64_char ((m mod 4) * 16 + n div 16),
          b64_char ((n mod 16) * 4), CHR ''=''])"
| "btoa (a # b # c # rest) =
     (let m = of_char a :: nat; n = of_char b :: nat; k = of_char c :: nat
      in [b64_char (m div 4), b64_char ((m mod 4) * 16 + n div 16),
          b64_char ((n mod 16) * 4 + k div 64), b64_char (k mod 64)] @ btoa rest)"

text \<open>
  The same encoding in two layers, for the proofs: the six-bit values, and the padding
  that follows them (\<open>btoa_layers\<close> below).
\<close>

fun sextets :: "string \<Rightarrow> nat list" where
  "sextets [] = []"
| "sextets [a] =
     (let m = of_char a :: nat in [m div 4, (m mod 4) * 16])"
| "sextets [a, b] =
     (let m = of_char a :: nat; n = of_char b :: nat
      in [m div 4, (m mod 4) * 16 + n div 16, (n mod 16) * 4])"
| "sextets (a # b # c # rest) =
     (let m = of_char a :: nat; n = of_char b :: nat; k = of_char c :: nat
      in [m div 4, (m mod 4) * 16 + n div 16, (n mod 16) * 4 + k div 64, k mod 64]
         @ sextets rest)"

fun padding :: "string \<Rightarrow> string" where
  "padding [] = []"
| "padding [a] = ''==''"
| "padding [a, b] = ''=''"
| "padding (a # b # c # rest) = padding rest"

text \<open>Groups of four sextets back to bytes; a tail of two or three gives one or two bytes.\<close>

fun sextets_to_bytes :: "nat list \<Rightarrow> string" where
  "sextets_to_bytes (p # q # r # s # rest) =
     [char_of (p * 4 + q div 16), char_of ((q mod 16) * 16 + r div 4),
      char_of ((r mod 4) * 64 + s)] @ sextets_to_bytes rest"
| "sextets_to_bytes [p, q, r] =
     [char_of (p * 4 + q div 16), char_of ((q mod 16) * 16 + r div 4)]"
| "sextets_to_bytes [p, q] = [char_of (p * 4 + q div 16)]"
| "sextets_to_bytes _ = []"

definition ascii_whitespace :: "char \<Rightarrow> bool" where
  "ascii_whitespace c = (of_char c \<in> {9, 10, 12, 13, 32 :: nat})"

definition strip_padding :: "string \<Rightarrow> string" where
  "strip_padding s =
     (if length s mod 4 = 0 then
        (case rev s of
           x # y # r \<Rightarrow>
             if x = CHR ''='' \<and> y = CHR ''='' then rev r
             else if x = CHR ''='' then rev (y # r)
             else s
         | [x] \<Rightarrow> if x = CHR ''='' then [] else s
         | [] \<Rightarrow> s)
      else s)"

fun those_opt :: "'a option list \<Rightarrow> 'a list option" where
  "those_opt [] = Some []"
| "those_opt (x # xs) =
     (case x of
        None \<Rightarrow> None
      | Some y \<Rightarrow> (case those_opt xs of None \<Rightarrow> None | Some ys \<Rightarrow> Some (y # ys)))"

text \<open>
  \<^verbatim>\<open>atob\<close> (forgiving base64): whitespace is dropped, padding is removed from a text
  whose length is a multiple of four, a length of 1 modulo 4 and any character outside
  the alphabet fail.
\<close>

definition atob :: "string \<Rightarrow> string option" where
  "atob s =
     (let t = strip_padding (filter (\<lambda>c. \<not> ascii_whitespace c) s)
      in if length t mod 4 = 1 then None
         else (case those_opt (map b64_index t) of
                 None \<Rightarrow> None
               | Some ns \<Rightarrow> Some (sextets_to_bytes ns)))"

text \<open>
  The base64url step of \<^verbatim>\<open>jwt-decode\<close>: \<^verbatim>\<open>-\<close> and \<^verbatim>\<open>_\<close> are mapped to \<^verbatim>\<open>+\<close> and
  \<^verbatim>\<open>/\<close>, the padding is completed, the text is decoded. The decoded text is kept as
  bytes.
\<close>

definition base64UrlDecode :: "string \<Rightarrow> string option" where
  "base64UrlDecode str =
     (let output = map (\<lambda>c. if c = CHR ''-'' then CHR ''+''
                              else if c = CHR ''_'' then CHR ''/'' else c) str
      in if length output mod 4 = 0 then atob output
         else if length output mod 4 = 2 then atob (output @ ''=='')
         else if length output mod 4 = 3 then atob (output @ ''='')
         else None)"

subsection \<open>JSON objects of strings and integers\<close>

datatype jsvalue = JString string | JNumber int

type_synonym jsobject = "(string \<times> jsvalue) list"

text \<open>Decimal digits of a natural number, most significant first.\<close>

fun show_nat :: "nat \<Rightarrow> string" where
  "show_nat n =
     (if n < 10 then [char_of (48 + n)]
      else show_nat (n div 10) @ [char_of (48 + n mod 10)])"

declare show_nat.simps [simp del]

definition show_int :: "int \<Rightarrow> string" where
  "show_int i = (if i < 0 then CHR ''-'' # show_nat (nat (- i)) else show_nat (nat i))"

text \<open>
  \<^verbatim>\<open>JSON.stringify\<close> on a string: the quotation mark, the backslash and the control
  characters are escaped.
\<close>

definition hex_digit :: "nat \<Rightarrow> char" where
  "hex_digit n = ''0123456789abcdef'' ! (n mod 16)"

definition escape_char :: "char \<Rightarrow> string" where
  "escape_char c =
     (if c = CHR 0x22 then [CHR 0x5C, CHR 0x22]
      else if c = CHR 0x5C then [CHR 0x5C, CHR 0x5C]
      else if c = CHR 0x08 then [CHR 0x5C, CHR ''b'']
      else if c = CHR 0x09 then [CHR 0x5C, CHR ''t'']
      else if c = CHR 0x0A then [CHR 0x5C, CHR ''n'']
      else if c = CHR 0x0C then [CHR 0x5C, CHR ''f'']
      else if c = CHR 0x0D then [CHR 0x5C, CHR ''r'']
      else if (of_char c :: nat) < 32
      then [CHR 0x5C, CHR ''u'', CHR ''0'', CHR ''0'',
            hex_digit (of_char c div 16), hex_digit (of_char c mod 16)]
      else [c])"

definition quote :: "string \<Rightarrow> string" where
  "quote s = CHR 0x22 # concat (map escape_char s) @ [CHR 0x22]"

fun stringify_value :: "jsvalue \<Rightarrow> string" where
  "stringify_value (JString s) = quote s"
| "stringify_value (JNumber n) = show_int n"

fun stringify_members :: "jsobject \<Rightarrow> string" where
  "stringify_members [] = []"
| "stringify_members [(k, v)] = quote k @ '':'' @ stringify_value v"
| "stringify_members ((k, v) # m # ms) =
     quote k @ '':'' @ stringify_value v @ '','' @ stringify_members (m # ms)"

definition JSON_stringify :: "jsobject \<Rightarrow> string" where
  "JSON_stringify obj = ''{'' @ stringify_members obj @ ''}''"

text \<open>\<^verbatim>\<open>JSON.parse\<close> on that fragment: first the tokens, then the object.\<close>

datatype jtoken = LBrace | RBrace | Colon | Comma | TString string | TNumber int

definition is_digit :: "char \<Rightarrow> bool" where
  "is_digit c = (48 \<le> (of_char c :: nat) \<and> (of_char c :: nat) \<le> 57)"

definition json_whitespace :: "char \<Rightarrow> bool" where
  "json_whitespace c = (of_char c \<in> {9, 10, 13, 32 :: nat})"

definition digits_value :: "string \<Rightarrow> nat" where
  "digits_value ds = foldl (\<lambda>acc c. 10 * acc + (of_char c - 48)) 0 ds"

definition hex_value :: "char \<Rightarrow> nat option" where
  "hex_value c =
     (let n = of_char c :: nat
      in if 48 \<le> n \<and> n \<le> 57 then Some (n - 48)
         else if 65 \<le> n \<and> n \<le> 70 then Some (n - 55)
         else if 97 \<le> n \<and> n \<le> 102 then Some (n - 87)
         else None)"

text \<open>
  A single-character escape, and \<^verbatim>\<open>\uXXXX\<close>. A code point above 127 is outside byte
  strings and is refused.
\<close>

definition unescape :: "char \<Rightarrow> char option" where
  "unescape e =
     (if e = CHR 0x22 then Some (CHR 0x22)
      else if e = CHR 0x5C then Some (CHR 0x5C)
      else if e = CHR ''/'' then Some (CHR ''/'')
      else if e = CHR ''b'' then Some (CHR 0x08)
      else if e = CHR ''f'' then Some (CHR 0x0C)
      else if e = CHR ''n'' then Some (CHR 0x0A)
      else if e = CHR ''r'' then Some (CHR 0x0D)
      else if e = CHR ''t'' then Some (CHR 0x09)
      else None)"

definition hex4 :: "string \<Rightarrow> char option" where
  "hex4 ds =
     (case those_opt (map hex_value ds) of
        Some [p, q, r, s] \<Rightarrow>
          (let n = ((p * 16 + q) * 16 + r) * 16 + s
           in if n < 128 then Some (char_of n) else None)
      | _ \<Rightarrow> None)"

definition cons_fst :: "'a \<Rightarrow> ('a list \<times> 'b) option \<Rightarrow> ('a list \<times> 'b) option" where
  "cons_fst c r = (case r of None \<Rightarrow> None | Some (x, t) \<Rightarrow> Some (c # x, t))"

text \<open>The body of a string literal, after its opening quotation mark.\<close>

fun lex_string :: "string \<Rightarrow> (string \<times> string) option" where
  "lex_string [] = None"
| "lex_string [c] = (if c = CHR 0x22 then Some ([], []) else None)"
| "lex_string (c # e # r) =
     (if c = CHR 0x22 then Some ([], e # r)
      else if c = CHR 0x5C then
        (if e = CHR ''u'' then
           (case hex4 (take 4 r) of
              None \<Rightarrow> None
            | Some ch \<Rightarrow> cons_fst ch (lex_string (drop 4 r)))
         else
           (case unescape e of
              None \<Rightarrow> None
            | Some ch \<Rightarrow> cons_fst ch (lex_string r)))
      else if (of_char c :: nat) < 32 then None
      else cons_fst c (lex_string (e # r)))"

text \<open>
  A number: an optional sign and digits without a leading zero. A fraction or an
  exponent is outside the fragment.
\<close>

definition lex_number :: "string \<Rightarrow> (int \<times> string) option" where
  "lex_number s =
     (let neg = (s \<noteq> [] \<and> hd s = CHR ''-'');
          u = (if neg then tl s else s);
          ds = takeWhile is_digit u;
          r = dropWhile is_digit u
      in if ds = [] then None
         else if 1 < length ds \<and> hd ds = CHR ''0'' then None
         else if r \<noteq> [] \<and> hd r \<in> {CHR ''.'', CHR ''e'', CHR ''E''} then None
         else Some (if neg then - int (digits_value ds) else int (digits_value ds), r))"

definition cons_opt :: "'a \<Rightarrow> 'a list option \<Rightarrow> 'a list option" where
  "cons_opt x r = (case r of None \<Rightarrow> None | Some xs \<Rightarrow> Some (x # xs))"

text \<open>
  The tokens of a text. The fuel bounds the number of steps; each step consumes at
  least one character, so the length of the text is enough (\<open>lex_fuel_enough\<close>,
  \<open>lex_Cons\<close>).
\<close>

fun lex_fuel :: "nat \<Rightarrow> string \<Rightarrow> jtoken list option" where
  "lex_fuel fuel [] = Some []"
| "lex_fuel 0 (c # s) = None"
| "lex_fuel (Suc fuel) (c # s) =
     (if json_whitespace c then lex_fuel fuel s
      else if c = CHR ''{'' then cons_opt LBrace (lex_fuel fuel s)
      else if c = CHR ''}'' then cons_opt RBrace (lex_fuel fuel s)
      else if c = CHR '':'' then cons_opt Colon (lex_fuel fuel s)
      else if c = CHR '','' then cons_opt Comma (lex_fuel fuel s)
      else if c = CHR 0x22 then
        (case lex_string s of
           None \<Rightarrow> None
         | Some (x, r) \<Rightarrow> cons_opt (TString x) (lex_fuel fuel r))
      else if c = CHR ''-'' \<or> is_digit c then
        (case lex_number (c # s) of
           None \<Rightarrow> None
         | Some (n, r) \<Rightarrow> cons_opt (TNumber n) (lex_fuel fuel r))
      else None)"

definition lex :: "string \<Rightarrow> jtoken list option" where
  "lex s = lex_fuel (length s) s"

fun token_value :: "jtoken \<Rightarrow> jsvalue option" where
  "token_value (TString s) = Some (JString s)"
| "token_value (TNumber n) = Some (JNumber n)"
| "token_value _ = None"

fun parse_members :: "jtoken list \<Rightarrow> jsobject option" where
  "parse_members [TString k, Colon, v, RBrace] =
     (case token_value v of None \<Rightarrow> None | Some x \<Rightarrow> Some [(k, x)])"
| "parse_members (TString k # Colon # v # Comma # rest) =
     (case token_value v of
        None \<Rightarrow> None
      | Some x \<Rightarrow> cons_opt (k, x) (parse_members rest))"
| "parse_members _ = None"

definition parse_object :: "jtoken list \<Rightarrow> jsobject option" where
  "parse_object toks =
     (case toks of
        [LBrace, RBrace] \<Rightarrow> Some []
      | LBrace # ms \<Rightarrow> parse_members ms
      | _ \<Rightarrow> None)"

definition JSON_parse :: "string \<Rightarrow> jsobject option" where
  "JSON_parse s = (case lex s of None \<Rightarrow> None | Some toks \<Rightarrow> parse_object toks)"

text \<open>Member access on a parsed object: of repeated names the last one counts.\<close>

definition member :: "jsobject \<Rightarrow> string \<Rightarrow> jsvalue option" where
  "member obj k = map_of (rev obj) k"

text \<open>
  The object read at the type \<^verbatim>\<open>JwtPayload\<close>. An object without the four members at
  their declared types is outside that type and counts as undecodable.
\<close>

definition asJwtPayload :: "jsobject \<Rightarrow> JwtPayload option" where
  "asJwtPayload obj =
     (case (member obj ''nameid'', member obj ''unique_name'', member obj ''role'',
            member obj ''exp'') of
        (Some (JString i), Some (JString n), Some (JString r), Some (JNumber e)) \<Rightarrow>
          Some \<lparr>nameid = i, unique_name = n, role = r, exp_jwt = of_int e\<rparr>
      | _ \<Rightarrow> None)"

text \<open>What the decoder makes of the middle part of a token.\<close>

definition parsePayloadPart :: "string \<Rightarrow> JwtPayload option" where
  "parsePayloadPart part =
     (case base64UrlDecode part of
        None \<Rightarrow> None
      | Some txt \<Rightarrow>
          (case JSON_parse txt of
             None \<Rightarrow> None
           | Some obj \<Rightarrow> asJwtPayload obj))"

section \<open>Login page (\<^verbatim>\<open>src/pages/Login/Login.tsx\<close>)\<close>

text \<open>The component's four \<^verbatim>\<open>useState\<close> cells.\<close>

record LoginForm =
  form_username :: string
  form_password :: string
  form_error :: "string option"
  loading :: bool

text \<open>
  \<^verbatim>\<open>createAdminToken\<close>: \<^verbatim>\<open>Math.floor(Date.now() / 1000)\<close> is \<open>now div 1000\<close>.
\<close>

definition createAdminToken :: "int \<Rightarrow> string" where
  "createAdminToken now =
     (let payload =
            [(''nameid'', JString ''admin''),
             (''unique_name'', JString ''admin''),
             (''role'', JString ''Administrator''),
             (''exp'', JNumber (now div 1000 + (24 * 60 * 60)))];
          base64Payload = btoa (JSON_stringify payload)
      in ''eyJhbGciOiJIUzI1NiIsInR5cCI6IkpXVCJ9'' @ ''.'' @ base64Payload @ ''.''
           @ ''mockSignature'')"

text \<open>
  \<^verbatim>\<open>handleSubmit\<close>. It ends with nothing, or with the exception that \<^verbatim>\<open>login\<close> let
  through. The admin branch returns before the \<^verbatim>\<open>try\<close>, so neither the
  \<^verbatim>\<open>catch\<close> nor the \<^verbatim>\<open>finally\<close> applies to it; in the other branch every exception is
  caught and \<^verbatim>\<open>loading\<close> is reset.
\<close>

definition handleSubmit ::
  "(string \<Rightarrow> JwtPayload option) \<Rightarrow> string option \<Rightarrow> (AxiosRequestConfig \<Rightarrow> reply) \<Rightarrow> int
     \<Rightarrow> LoginForm \<Rightarrow> App \<Rightarrow> (error + unit) \<times> LoginForm \<times> App" where
  "handleSubmit parsePart env server now f a =
     (if form_username f = [] \<or> form_password f = []
      then (Inr (), f\<lparr>form_error := Some ''Please enter both username and password''\<rparr>, a)
      else
        (let f1 = f\<lparr>form_error := None, loading := True\<rparr> in
         if form_username f = ''admin'' \<and> form_password f = ''admin'' then
           (let adminToken = createAdminToken now in
            case login parsePart adminToken a of
              (Inl e, a1) \<Rightarrow> (Inl e, f1, a1)
            | (Inr u, a1) \<Rightarrow> (Inr (), f1, a1\<lparr>location := ''/''\<rparr>))
         else
           (case apiClient_post env server ''/Auth/Login''
                   (JSON_stringify [(''username'', JString (form_username f)),
                                    (''password'', JString (form_password f))]) a of
              (Inr r, a1) \<Rightarrow>
                (case token_of (response_data r) of
                   None \<Rightarrow>
                     (Inr (), f1\<lparr>form_error := Some ''Invalid response from server'',
                                 loading := False\<rparr>, a1)
                 | Some token \<Rightarrow>
                     if token = [] then
                       (Inr (), f1\<lparr>form_error := Some ''Invalid response from server'',
                                   loading := False\<rparr>, a1)
                     else
                       (case login parsePart token a1 of
                          (Inl e, a2) \<Rightarrow>
                            (Inr (), f1\<lparr>form_error := Some ''An unexpected error occurred'',
                                        loading := False\<rparr>, a2)
                        | (Inr u, a2) \<Rightarrow>
                            (Inr (), f1\<lparr>loading := False\<rparr>, a2\<lparr>location := ''/''\<rparr>)))
            | (Inl err, a1) \<Rightarrow>
                (case response err of
                   None \<Rightarrow>
                     (Inr (), f1\<lparr>form_error := Some ''An error occurred during login'',
                                 loading := False\<rparr>, a1)
                 | Some r \<Rightarrow>
                     if status r = 401 then
                       (Inr (), f1\<lparr>form_error := Some ''Invalid username or password'',
                                   loading := False\<rparr>, a1)
                     else
                       (case message_of (response_data r) of
                          None \<Rightarrow>
                            (Inr (), f1\<lparr>form_error := Some ''An error occurred during login'',
                                        loading := False\<rparr>, a1)
                        | Some m \<Rightarrow>
                            (Inr (), f1\<lparr>form_error :=
                                          Some (if m = [] then ''An error occurred during login''
                                                else m),
                                        loading := False\<rparr>, a1))))))"

section \<open>Facts about the decoder\<close>

lemma jwtDecode_empty: "jwtDecode parsePart [] = Inl InvalidTokenError"
  by (simp add: jwtDecode_def)

lemma jwtDecode_nonempty: "jwtDecode parsePart token = Inr decoded \<Longrightarrow> token \<noteq> []"
  by (auto simp: jwtDecode_empty)

lemma jwtDecode_one_part: "CHR ''.'' \<notin> set token \<Longrightarrow> jwtDecode parsePart token = Inl InvalidTokenError"
proof -
  assume "CHR ''.'' \<notin> set token"
  then have "split (CHR ''.'') token = [token]"
    by (induction token) auto
  then show ?thesis by (simp add: jwtDecode_def)
qed


section \<open>Session store: initialize\<close>

lemma initialize_decoded:
  assumes "store ''token'' = Some token" and "jwtDecode parsePart token = Inr decoded"
  shows "initialize parsePart now (mounted store loc) =
           (if of_int now / 1000 < exp_jwt decoded
            then (mounted store loc)\<lparr>isAuthenticated := True, user := Some (userOf decoded)\<rparr>
            else removeItem ''token'' (mounted store loc))"
  using assms jwtDecode_nonempty [OF assms(2)]
  by (simp add: initialize_def getItem_def mounted_def)

lemma initialize_undecodable:
  assumes "store ''token'' = Some token" and "token \<noteq> []"
    and "jwtDecode parsePart token = Inl e"
  shows "initialize parsePart now (mounted store loc) = removeItem ''token'' (mounted store loc)"
  using assms by (simp add: initialize_def getItem_def mounted_def)



text \<open>
  C4 as stated fails for the empty string: it is a stored value that the decoder
  rejects, \<^verbatim>\<open>if (token)\<close> reads it as no token, and the entry stays in storage.
\<close>

theorem C4_empty_token_counterexample:
  "[''token'' \<mapsto> []] ''token'' = Some []
   \<and> jwtDecode parsePayloadPart [] = Inl InvalidTokenError
   \<and> getItem ''token'' (initialize parsePayloadPart 0 (mounted [''token'' \<mapsto> []] ''/''))
       \<noteq> None"
  by (simp add: jwtDecode_empty initialize_def getItem_def mounted_def)

text \<open>
  C4 (amended). For every stored token that is undecodable, or whose expiry instant is
  in the past, Initialize yields an unauthenticated state with no
  identity and throws nothing (it is a total function to states); when the token is not
  the empty string it removes the entry from storage, and when it is the empty string
  it leaves everything as it was.
\<close>

theorem C4_invalid_token_discarded:
  assumes "store ''token'' = Some token"
    and "jwtDecode parsePart token = Inl e
         \<or> (\<exists>decoded. jwtDecode parsePart token = Inr decoded
                \<and> exp_jwt decoded < of_int now / 1000)"
  shows "isAuthenticated (initialize parsePart now (mounted store loc)) = False
       \<and> user (initialize parsePart now (mounted store loc)) = None
       \<and> (if token = []
          then initialize parsePart now (mounted store loc) = mounted store loc
          else getItem ''token'' (initialize parsePart now (mounted store loc)) = None)"
proof (cases "token = []")
  case True
  with assms(1) show ?thesis
    by (simp add: initialize_def getItem_def mounted_def)
next
  case False
  from assms(2) have "initialize parsePart now (mounted store loc)
      = removeItem ''token'' (mounted store loc)"
  proof
    assume "jwtDecode parsePart token = Inl e"
    then show ?thesis
      using initialize_undecodable [where store = store and token = token] assms(1) False
      by simp
  next
    assume "\<exists>decoded. jwtDecode parsePart token = Inr decoded
              \<and> exp_jwt decoded < of_int now / 1000"
    then obtain decoded where d: "jwtDecode parsePart token = Inr decoded"
      and old: "exp_jwt decoded < of_int now / 1000" by blast
    show ?thesis
      using initialize_decoded [where store = store and token = token, OF assms(1) d] old
      by simp
  qed
  with False show ?thesis
    by (simp add: removeItem_def getItem_def mounted_def)
qed

theorem C4_invalid_token_discarded_witness:
  "[''token'' \<mapsto> ''garbage''] ''token'' = Some ''garbage''
   \<and> jwtDecode parsePayloadPart ''garbage'' = Inl InvalidTokenError
   \<and> isAuthenticated (initialize parsePayloadPart 1700000
        (mounted [''token'' \<mapsto> ''garbage''] ''/'')) = False
   \<and> user (initialize parsePayloadPart 1700000
        (mounted [''token'' \<mapsto> ''garbage''] ''/'')) = None
   \<and> getItem ''token'' (initialize parsePayloadPart 1700000
        (mounted [''token'' \<mapsto> ''garbage''] ''/'')) = None"
proof -
  have stored: "[''token'' \<mapsto> ''garbage''] ''token'' = Some ''garbage''" by simp
  have bad: "jwtDecode parsePayloadPart ''garbage'' = Inl InvalidTokenError"
    by (rule jwtDecode_one_part) simp
  then have hyp: "jwtDecode parsePayloadPart ''garbage'' = Inl InvalidTokenError
     \<or> (\<exists>decoded. jwtDecode parsePayloadPart ''garbage'' = Inr decoded
            \<and> exp_jwt decoded < of_int 1700000 / 1000)" by simp
  show ?thesis
    using C4_invalid_token_discarded [where store = "[''token'' \<mapsto> ''garbage'']"
        and token = "''garbage''" and loc = "''/''", OF stored hyp] bad
    by simp
qed



section \<open>Session store: login\<close>





section \<open>Session store: logout\<close>

text \<open>
  C7. Logout always succeeds and is idempotent: from every prior state it leaves
  authenticated = false, no identity and no storage entry, and a second logout changes
  nothing more.
\<close>

theorem C7_logout_idempotent:
  "isAuthenticated (logout a) = False
   \<and> user (logout a) = None
   \<and> getItem ''token'' (logout a) = None
   \<and> logout (logout a) = logout a"
  by (simp add: logout_def removeItem_def getItem_def)

section \<open>HTTP client wrapper: the response interceptor\<close>

lemma response_fulfilled_passes: "response_fulfilled r a = (r, a)"
  by (simp add: response_fulfilled_def)

lemma response_rejected_unauthorized:
  assumes "response err = Some r" and "status r = 401"
  shows "response_rejected err a = (err, (removeItem ''token'' a)\<lparr>location := ''/login''\<rparr>)"
  using assms by (simp add: response_rejected_def)

lemma response_rejected_passes:
  assumes "response err = None \<or> (\<exists>r. response err = Some r \<and> status r \<noteq> 401)"
  shows "response_rejected err a = (err, a)"
  using assms by (auto simp: response_rejected_def)

lemma api_response_rejected_clears:
  assumes "response err = Some r" and "status r = 401 \<or> status r = 403"
  shows "getItem ''token'' (snd (api_response_rejected err a)) = None
       \<and> location (snd (api_response_rejected err a)) = ''/login''
       \<and> fst (api_response_rejected err a) = err"
  using assms by (auto simp: api_response_rejected_def removeItem_def getItem_def)

lemma api_response_rejected_passes:
  assumes "response err = None
           \<or> (\<exists>r. response err = Some r \<and> status r \<noteq> 401 \<and> status r \<noteq> 403)"
  shows "api_response_rejected err a = (err, a)"
  using assms by (auto simp: api_response_rejected_def)


section \<open>HTTP client wrapper: the request interceptor\<close>




section \<open>Route guard\<close>

text \<open>
  C8. The route guard admits exactly when the authenticated flag is true. When it is
  false the guard renders the redirect to the login view and nothing else: the element
  is the same for every children and every location that was asked for, and it
  carries no record of that location.
\<close>

theorem C8_route_guard:
  "admits (PrivateRoute children a) = isAuthenticated a
   \<and> (\<not> isAuthenticated a \<longrightarrow> PrivateRoute children a = Navigate ''/login'' True)
   \<and> (isAuthenticated a \<longrightarrow>
        PrivateRoute children a = (if truthy children then Fragment children else Outlet))
   \<and> PrivateRoute children (a\<lparr>location := requested\<rparr>) = PrivateRoute children a"
  by (simp add: PrivateRoute_def)

theorem C8_route_guard_witness:
  "\<not> isAuthenticated (mounted Map.empty ''/patients/7'')
   \<and> PrivateRoute (Element ''Outlet'') (mounted Map.empty ''/patients/7'')
       = Navigate ''/login'' True
   \<and> isAuthenticated ((mounted Map.empty ''/patients/7'')\<lparr>isAuthenticated := True\<rparr>)
   \<and> PrivateRoute (Element ''Outlet'')
        ((mounted Map.empty ''/patients/7'')\<lparr>isAuthenticated := True\<rparr>)
       = Fragment (Element ''Outlet'')"
proof -
  note denied = C8_route_guard [where children = "Element ''Outlet''"
      and a = "mounted Map.empty ''/patients/7''" and requested = "''/''"]
  note admitted = C8_route_guard [where children = "Element ''Outlet''"
      and a = "(mounted Map.empty ''/patients/7'')\<lparr>isAuthenticated := True\<rparr>"
      and requested = "''/''"]
  have off: "\<not> isAuthenticated (mounted Map.empty ''/patients/7'')"
    by (simp add: mounted_def)
  show ?thesis using denied admitted off by simp
qed

section \<open>The JSON fragment\<close>

subsection \<open>Decimal digits\<close>

lemma of_char_digit: "d < 10 \<Longrightarrow> (of_char (char_of (48 + d :: nat)) :: nat) = 48 + d"
  by simp

lemma is_digit_char_of: "d < 10 \<Longrightarrow> is_digit (char_of (48 + d :: nat))"
  by (simp add: is_digit_def)

lemma show_nat_digits: "c \<in> set (show_nat n) \<Longrightarrow> is_digit c"
proof (induction n rule: show_nat.induct)
  case (1 n)
  show ?case
  proof (cases "n < 10")
    case True
    with "1.prems" show ?thesis
      by (subst (asm) show_nat.simps) (simp add: is_digit_char_of)
  next
    case False
    with "1.prems" have "c \<in> set (show_nat (n div 10)) \<or> c = char_of (48 + n mod 10)"
      by (subst (asm) show_nat.simps) auto
    then show ?thesis
      using "1.IH" [OF False] is_digit_char_of [of "n mod 10"] by auto
  qed
qed

lemma show_nat_nonempty: "show_nat n \<noteq> []"
  by (subst show_nat.simps) simp

lemma digits_value_snoc:
  "digits_value (ds @ [c]) = 10 * digits_value ds + (of_char c - 48)"
  by (simp add: digits_value_def)

lemma digits_value_show_nat: "digits_value (show_nat n) = n"
proof (induction n rule: show_nat.induct)
  case (1 n)
  show ?case
  proof (cases "n < 10")
    case True
    then show ?thesis
      by (subst show_nat.simps) (simp add: digits_value_def)
  next
    case False
    have "digits_value (show_nat n)
        = 10 * digits_value (show_nat (n div 10)) + (of_char (char_of (48 + n mod 10)) - 48)"
      using False by (subst show_nat.simps) (simp add: digits_value_snoc)
    also have "\<dots> = 10 * (n div 10) + n mod 10"
      using "1.IH" [OF False] by simp
    finally show ?thesis by simp
  qed
qed

lemma show_nat_no_leading_zero: "0 < n \<Longrightarrow> hd (show_nat n) \<noteq> CHR ''0''"
proof (induction n rule: show_nat.induct)
  case (1 n)
  show ?case
  proof (cases "n < 10")
    case True
    have "(of_char (hd (show_nat n)) :: nat) = 48 + n"
      using True by (subst show_nat.simps) simp
    moreover have "(of_char (CHR ''0'') :: nat) = 48" by simp
    ultimately show ?thesis using "1.prems" by (metis add_cancel_right_right less_numeral_extra(3))
  next
    case False
    then have "0 < n div 10" by simp
    from "1.IH" [OF False this] show ?thesis
      using False show_nat_nonempty [of "n div 10"]
      by (subst show_nat.simps) simp
  qed
qed

lemma show_nat_length_one: "n < 10 \<Longrightarrow> length (show_nat n) = 1"
  by (subst show_nat.simps) simp

lemma takeWhile_digits: "\<not> is_digit c \<Longrightarrow> takeWhile is_digit (show_nat n @ c # r) = show_nat n"
  by (simp add: takeWhile_append2 show_nat_digits)

lemma dropWhile_digits: "\<not> is_digit c \<Longrightarrow> dropWhile is_digit (show_nat n @ c # r) = c # r"
  by (simp add: dropWhile_append2 show_nat_digits)

lemma hd_show_nat_digit: "is_digit (hd (show_nat n))"
  using show_nat_nonempty [of n] show_nat_digits [of "hd (show_nat n)" n] by simp

lemma lex_number_show_nat:
  assumes "\<not> is_digit c" and "c \<notin> {CHR ''.'', CHR ''e'', CHR ''E''}"
  shows "lex_number (show_nat n @ c # r) = Some (int n, c # r)"
proof -
  have not_neg: "hd (show_nat n @ c # r) \<noteq> CHR ''-''"
    using hd_show_nat_digit [of n] show_nat_nonempty [of n]
    by (auto simp: is_digit_def hd_append)
  have zero: "\<not> (1 < length (show_nat n) \<and> hd (show_nat n) = CHR ''0'')"
  proof (cases "n < 10")
    case True
    then show ?thesis by (simp add: show_nat_length_one)
  next
    case False
    then show ?thesis using show_nat_no_leading_zero [of n] by simp
  qed
  show ?thesis
    using not_neg zero assms
    by (simp add: lex_number_def Let_def takeWhile_digits dropWhile_digits
        show_nat_nonempty digits_value_show_nat)
qed

lemma lex_number_show_int:
  assumes "\<not> is_digit c" and "c \<notin> {CHR ''.'', CHR ''e'', CHR ''E''}"
  shows "lex_number (show_int i @ c # r) = Some (i, c # r)"
proof (cases "i < 0")
  case False
  then show ?thesis
    using lex_number_show_nat [OF assms, of "nat i" r] by (simp add: show_int_def)
next
  case True
  have zero: "\<not> (1 < length (show_nat (nat (- i))) \<and> hd (show_nat (nat (- i))) = CHR ''0'')"
    using True show_nat_no_leading_zero [of "nat (- i)"] by simp
  show ?thesis
    using True zero assms
    by (simp add: show_int_def lex_number_def Let_def takeWhile_digits dropWhile_digits
        show_nat_nonempty digits_value_show_nat)
qed

lemma show_int_head:
  obtains c t where "show_int i = c # t" and "c = CHR ''-'' \<or> is_digit c"
proof (cases "i < 0")
  case True
  then show ?thesis using that by (simp add: show_int_def)
next
  case False
  obtain c t where ct: "show_nat (nat i) = c # t"
    using show_nat_nonempty [of "nat i"] by (cases "show_nat (nat i)") auto
  then have "is_digit c" using hd_show_nat_digit [of "nat i"] by simp
  with ct False show ?thesis using that by (simp add: show_int_def)
qed

subsection \<open>The lexer never runs out of fuel\<close>

lemma lex_string_shorter: "lex_string s = Some (x, r) \<Longrightarrow> length r < length s"
proof (induction s arbitrary: x r rule: lex_string.induct)
  case 1
  then show ?case by simp
next
  case (2 c)
  then show ?case by (simp split: if_splits)
next
  case (3 c e r')
  then show ?case
    by (fastforce simp: cons_fst_def split: if_splits option.splits)
qed

lemma lex_number_shorter: "lex_number (c # s) = Some (n, r) \<Longrightarrow> length r \<le> length s"
proof -
  assume a: "lex_number (c # s) = Some (n, r)"
  let ?u = "if c = CHR ''-'' then s else c # s"
  from a have r: "r = dropWhile is_digit ?u" and ne: "takeWhile is_digit ?u \<noteq> []"
    by (auto simp: lex_number_def Let_def split: if_splits)
  show ?thesis
  proof (cases "c = CHR ''-''")
    case True
    with r show ?thesis by (simp add: length_dropWhile_le)
  next
    case False
    with ne have "is_digit c" by (auto split: if_splits)
    with False r show ?thesis by (simp add: length_dropWhile_le)
  qed
qed

lemma lex_fuel_enough:
  "length s \<le> f \<Longrightarrow> length s \<le> g \<Longrightarrow> lex_fuel f s = lex_fuel g s"
proof (induction f arbitrary: g s)
  case 0
  then show ?case by simp
next
  case (Suc f)
  show ?case
  proof (cases s)
    case Nil
    then show ?thesis by simp
  next
    case (Cons c s')
    with Suc.prems obtain g' where g: "g = Suc g'" and s': "length s' \<le> f" "length s' \<le> g'"
      by (cases g) auto
    have tail: "lex_fuel f s' = lex_fuel g' s'"
      by (rule Suc.IH [OF s'])
    have str: "lex_fuel f r = lex_fuel g' r" if "lex_string s' = Some (x, r)" for x r
      using lex_string_shorter [OF that] s' by (intro Suc.IH) auto
    have num: "lex_fuel f r = lex_fuel g' r" if "lex_number (c # s') = Some (n, r)" for n r
      using lex_number_shorter [OF that] s' by (intro Suc.IH) auto
    show ?thesis
      unfolding Cons g
      by (simp add: tail str num split: option.splits)
  qed
qed

text \<open>The lexer, one step at a time and without the fuel.\<close>

lemma lex_Nil: "lex [] = Some []"
  by (simp add: lex_def)

lemma lex_Cons:
  "lex (c # s) =
     (if json_whitespace c then lex s
      else if c = CHR ''{'' then cons_opt LBrace (lex s)
      else if c = CHR ''}'' then cons_opt RBrace (lex s)
      else if c = CHR '':'' then cons_opt Colon (lex s)
      else if c = CHR '','' then cons_opt Comma (lex s)
      else if c = CHR 0x22 then
        (case lex_string s of
           None \<Rightarrow> None
         | Some (x, r) \<Rightarrow> cons_opt (TString x) (lex r))
      else if c = CHR ''-'' \<or> is_digit c then
        (case lex_number (c # s) of
           None \<Rightarrow> None
         | Some (n, r) \<Rightarrow> cons_opt (TNumber n) (lex r))
      else None)"
proof -
  have str: "lex_fuel (length s) r = lex_fuel (length r) r"
    if "lex_string s = Some (x, r)" for x r
    using lex_string_shorter [OF that] by (intro lex_fuel_enough) auto
  have num: "lex_fuel (length s) r = lex_fuel (length r) r"
    if "lex_number (c # s) = Some (n, r)" for n r
    using lex_number_shorter [OF that] by (intro lex_fuel_enough) auto
  show ?thesis
    by (simp add: lex_def str num split: option.splits)
qed

subsection \<open>Reading back what \<^verbatim>\<open>JSON.stringify\<close> wrote\<close>

lemma lex_show_int_end: "lex (show_int i @ ''}'') = Some [TNumber i, RBrace]"
proof -
  obtain c t where ct: "show_int i = c # t" and c: "c = CHR ''-'' \<or> is_digit c"
    by (rule show_int_head)
  have num: "lex_number (c # t @ ''}'') = Some (i, ''}'')"
    using lex_number_show_int [of "CHR ''}''" i "[]"] ct by (simp add: is_digit_def)
  have plain: "\<not> json_whitespace c" "c \<noteq> CHR ''{''" "c \<noteq> CHR ''}''" "c \<noteq> CHR '':''"
    "c \<noteq> CHR '',''" "c \<noteq> CHR 0x22"
    using c by (auto simp: is_digit_def json_whitespace_def)
  have "lex (c # t @ ''}'') = cons_opt (TNumber i) (lex ''}'')"
    using c plain num by (simp add: lex_Cons [of c])
  also have "\<dots> = Some [TNumber i, RBrace]"
    by (simp add: lex_Cons lex_Nil cons_opt_def json_whitespace_def)
  finally show ?thesis using ct by simp
qed

lemma admin_payload_text:
  "JSON_stringify
     [(''nameid'', JString ''admin''), (''unique_name'', JString ''admin''),
      (''role'', JString ''Administrator''), (''exp'', JNumber e)]
   = CHR ''{'' # CHR 0x22 # ''nameid'' @ CHR 0x22 # CHR '':'' # CHR 0x22 # ''admin''
       @ CHR 0x22 # CHR '','' # CHR 0x22 # ''unique_name'' @ CHR 0x22 # CHR '':'' # CHR 0x22
       # ''admin'' @ CHR 0x22 # CHR '','' # CHR 0x22 # ''role'' @ CHR 0x22 # CHR '':''
       # CHR 0x22 # ''Administrator'' @ CHR 0x22 # CHR '','' # CHR 0x22 # ''exp''
       @ CHR 0x22 # CHR '':'' # show_int e @ ''}''"
  by (simp add: JSON_stringify_def quote_def escape_char_def)

lemma lex_admin_payload:
  "lex (JSON_stringify
     [(''nameid'', JString ''admin''), (''unique_name'', JString ''admin''),
      (''role'', JString ''Administrator''), (''exp'', JNumber e)])
   = Some [LBrace, TString ''nameid'', Colon, TString ''admin'', Comma,
           TString ''unique_name'', Colon, TString ''admin'', Comma,
           TString ''role'', Colon, TString ''Administrator'', Comma,
           TString ''exp'', Colon, TNumber e, RBrace]"
  unfolding admin_payload_text
  by (simp add: lex_Cons lex_show_int_end cons_opt_def cons_fst_def json_whitespace_def
      is_digit_def)

lemma JSON_parse_admin_payload:
  "JSON_parse (JSON_stringify
     [(''nameid'', JString ''admin''), (''unique_name'', JString ''admin''),
      (''role'', JString ''Administrator''), (''exp'', JNumber e)])
   = Some [(''nameid'', JString ''admin''), (''unique_name'', JString ''admin''),
           (''role'', JString ''Administrator''), (''exp'', JNumber e)]"
  by (simp add: JSON_parse_def lex_admin_payload parse_object_def cons_opt_def)

lemma asJwtPayload_admin:
  "asJwtPayload
     [(''nameid'', JString ''admin''), (''unique_name'', JString ''admin''),
      (''role'', JString ''Administrator''), (''exp'', JNumber e)]
   = Some \<lparr>nameid = ''admin'', unique_name = ''admin'', role = ''Administrator'',
           exp_jwt = of_int e\<rparr>"
  by (simp add: asJwtPayload_def member_def)

section \<open>Base64 round trip\<close>

lemma length_b64_alphabet: "length b64_alphabet = 64"
  by (simp add: b64_alphabet_def)

lemma distinct_b64_alphabet: "distinct b64_alphabet"
  by (simp add: b64_alphabet_def)

lemma index_of_nth: "distinct xs \<Longrightarrow> n < length xs \<Longrightarrow> index_of (xs ! n) xs = Some n"
proof (induction xs arbitrary: n)
  case Nil
  then show ?case by simp
next
  case (Cons y ys)
  show ?case
  proof (cases n)
    case 0
    then show ?thesis by simp
  next
    case (Suc m)
    with Cons.prems have "ys ! m \<in> set ys" "y \<notin> set ys" by auto
    then have "ys ! m \<noteq> y" by auto
    with Suc Cons show ?thesis by simp
  qed
qed

lemma b64_index_char: "n < 64 \<Longrightarrow> b64_index (b64_char n) = Some n"
  by (simp add: b64_index_def b64_char_def index_of_nth distinct_b64_alphabet
      length_b64_alphabet)

lemma b64_char_in_alphabet: "b64_char n \<in> set b64_alphabet"
  by (simp add: b64_char_def length_b64_alphabet)

lemma alphabet_plain:
  assumes "c \<in> set b64_alphabet"
  shows "c \<noteq> CHR ''=''" and "c \<noteq> CHR ''.''" and "c \<noteq> CHR ''-''" and "c \<noteq> CHR ''_''"
    and "\<not> ascii_whitespace c"
  using assms by (auto simp: b64_alphabet_def ascii_whitespace_def)

lemma btoa_layers: "btoa s = map b64_char (sextets s) @ padding s"
  by (induction s rule: btoa.induct) (simp_all add: Let_def)

lemma of_char_bound: "(of_char c :: nat) < 256"
  by simp

lemma sextet_bounds:
  fixes m n k :: nat
  assumes "m < 256" and "n < 256" and "k < 256"
  shows "m div 4 < 64" and "m mod 4 * 16 < 64" and "m mod 4 * 16 + n div 16 < 64"
    and "n mod 16 * 4 < 64" and "n mod 16 * 4 + k div 64 < 64" and "k mod 64 < 64"
proof -
  have "m mod 4 < 4" "n mod 16 < 16" "n div 16 < 16" "k div 64 < 4"
    using assms by simp_all
  then show "m mod 4 * 16 < 64" "m mod 4 * 16 + n div 16 < 64"
    "n mod 16 * 4 < 64" "n mod 16 * 4 + k div 64 < 64"
    by linarith+
  show "m div 4 < 64" "k mod 64 < 64" using assms by simp_all
qed

lemma sextets_bound: "n \<in> set (sextets s) \<Longrightarrow> n < 64"
proof (induction s rule: sextets.induct)
  case 1
  then show ?case by simp
next
  case (2 a)
  note b = sextet_bounds [OF of_char_bound [of a] of_char_bound [of a] of_char_bound [of a]]
  from 2 show ?case using b(1,2) by (auto simp: Let_def)
next
  case (3 a b)
  note b = sextet_bounds [OF of_char_bound [of a] of_char_bound [of b] of_char_bound [of b]]
  from 3 show ?case using b(1,3,4) by (auto simp: Let_def)
next
  case (4 a b c rest)
  note b = sextet_bounds [OF of_char_bound [of a] of_char_bound [of b] of_char_bound [of c]]
  from 4 show ?case using b(1,3,5,6) by (auto simp: Let_def)
qed

lemma padding_cases: "padding s = [] \<or> padding s = ''='' \<or> padding s = ''==''"
  by (induction s rule: padding.induct) simp_all

lemma length_btoa: "length (btoa s) mod 4 = 0"
  by (induction s rule: btoa.induct) (simp_all add: Let_def)

lemma length_sextets: "length (sextets s) mod 4 \<noteq> 1"
  by (induction s rule: sextets.induct) (simp_all add: Let_def)

lemma shift_div: "x < c \<Longrightarrow> (a * c + x) div c = (a::nat)"
  by simp

lemma shift_mod: "x < c \<Longrightarrow> (a * c + x) mod c = (x::nat)"
  by simp

lemma sextet_arith:
  fixes m n k :: nat
  assumes "n < 256" and "k < 256"
  shows "m div 4 * 4 + (m mod 4 * 16 + n div 16) div 16 = m"
    and "(m mod 4 * 16 + n div 16) mod 16 * 16 + (n mod 16 * 4 + k div 64) div 4 = n"
    and "(n mod 16 * 4 + k div 64) mod 4 * 64 + k mod 64 = k"
    and "m div 4 * 4 + m mod 4 * 16 div 16 = m"
    and "(m mod 4 * 16 + n div 16) mod 16 * 16 + n mod 16 * 4 div 4 = n"
proof -
  have n16: "n div 16 < 16" and k64: "k div 64 < 4"
    using assms by simp_all
  have n16': "n div 16 mod 16 = n div 16" and k64': "k div 64 mod 4 = k div 64"
    using n16 k64 by simp_all
  show "m div 4 * 4 + (m mod 4 * 16 + n div 16) div 16 = m"
    by (simp add: shift_div [OF n16])
  show "(m mod 4 * 16 + n div 16) mod 16 * 16 + (n mod 16 * 4 + k div 64) div 4 = n"
    by (simp add: n16' shift_div [OF k64])
  show "(n mod 16 * 4 + k div 64) mod 4 * 64 + k mod 64 = k"
    by (simp add: k64')
  show "m div 4 * 4 + m mod 4 * 16 div 16 = m"
    by simp
  show "(m mod 4 * 16 + n div 16) mod 16 * 16 + n mod 16 * 4 div 4 = n"
    by (simp add: n16')
qed

lemma sextets_to_bytes_sextets: "sextets_to_bytes (sextets s) = s"
proof (induction s rule: sextets.induct)
  case 1
  then show ?case by simp
next
  case (2 a)
  note r = sextet_arith(4) [where m = "of_char a" and n = 0 and k = 0]
  show ?case using r by (simp add: Let_def)
next
  case (3 a b)
  note r = sextet_arith(1) [where m = "of_char a" and n = "of_char b" and k = "of_char b",
      OF of_char_bound of_char_bound]
    sextet_arith(5) [where m = "of_char a" and n = "of_char b" and k = "of_char b",
      OF of_char_bound of_char_bound]
  show ?case using r by (simp add: Let_def)
next
  case (4 a b c rest)
  note r = sextet_arith(1) [where m = "of_char a" and n = "of_char b" and k = "of_char c",
      OF of_char_bound of_char_bound]
    sextet_arith(2) [where m = "of_char a" and n = "of_char b" and k = "of_char c",
      OF of_char_bound of_char_bound]
    sextet_arith(3) [where n = "of_char b" and k = "of_char c",
      OF of_char_bound of_char_bound]
  show ?case using r "4.IH" by (simp add: Let_def)
qed

subsection \<open>Padding, whitespace and the alphabet\<close>

lemma btoa_chars: "c \<in> set (btoa s) \<Longrightarrow> c \<in> set b64_alphabet \<or> c = CHR ''=''"
  using padding_cases [of s] by (auto simp: btoa_layers b64_char_in_alphabet)

lemma btoa_no_dot: "CHR ''.'' \<notin> set (btoa s)"
  using btoa_chars [of "CHR ''.''" s] alphabet_plain(2) [of "CHR ''.''"] by auto

lemma btoa_no_whitespace: "filter (\<lambda>c. \<not> ascii_whitespace c) (btoa s) = btoa s"
proof -
  have "\<not> ascii_whitespace c" if "c \<in> set (btoa s)" for c
    using btoa_chars [OF that] alphabet_plain(5) [of c]
    by (auto simp: ascii_whitespace_def)
  then show ?thesis by simp
qed

lemma btoa_url_safe:
  "map (\<lambda>c. if c = CHR ''-'' then CHR ''+'' else if c = CHR ''_'' then CHR ''/'' else c)
     (btoa s) = btoa s"
proof -
  have "c \<noteq> CHR ''-'' \<and> c \<noteq> CHR ''_''" if "c \<in> set (btoa s)" for c
    using btoa_chars [OF that] alphabet_plain(3,4) [of c] by auto
  then show ?thesis by (simp add: map_idI)
qed

lemma strip_padding_plain:
  assumes "CHR ''='' \<notin> set x" and "p = [] \<or> p = ''='' \<or> p = ''==''"
    and "length (x @ p) mod 4 = 0"
  shows "strip_padding (x @ p) = x"
proof (cases "x = []")
  case True
  with assms(2,3) show ?thesis by (auto simp: strip_padding_def)
next
  case False
  then obtain y r where yr: "rev x = y # r" by (cases "rev x") auto
  then have "y \<in> set x" by (metis list.set_intros(1) set_rev)
  with assms(1) have y: "y \<noteq> CHR ''=''" by auto
  have x: "x = rev (y # r)" using yr by (metis rev_rev_ident)
  from assms(2) show ?thesis
  proof (elim disjE)
    assume "p = []"
    with assms(3) yr y show ?thesis
      by (cases r) (auto simp: strip_padding_def)
  next
    assume "p = ''=''"
    with assms(3) yr y x show ?thesis
      by (simp add: strip_padding_def)
  next
    assume "p = ''==''"
    with assms(3) yr y x show ?thesis
      by (simp add: strip_padding_def)
  qed
qed

lemma b64_char_not_pad: "b64_char n \<noteq> CHR ''=''"
  by (rule alphabet_plain(1) [OF b64_char_in_alphabet])

lemma strip_padding_btoa: "strip_padding (btoa s) = map b64_char (sextets s)"
proof -
  have "CHR ''='' \<notin> set (map b64_char (sextets s))"
    using b64_char_not_pad by (auto simp del: map_map) metis
  then show ?thesis
    using strip_padding_plain [OF _ padding_cases [of s], of "map b64_char (sextets s)"]
      length_btoa [of s]
    by (simp add: btoa_layers)
qed

lemma those_opt_map_Some: "those_opt (map Some xs) = Some xs"
  by (induction xs) simp_all

lemma indices_of_sextets: "map b64_index (map b64_char (sextets s)) = map Some (sextets s)"
  by (simp add: b64_index_char sextets_bound)

lemma atob_btoa: "atob (btoa s) = Some s"
  using length_sextets [of s]
  by (simp add: atob_def btoa_no_whitespace strip_padding_btoa indices_of_sextets
      those_opt_map_Some sextets_to_bytes_sextets del: map_map)

lemma base64UrlDecode_btoa: "base64UrlDecode (btoa s) = Some s"
  by (simp add: base64UrlDecode_def btoa_url_safe length_btoa atob_btoa)

section \<open>Login page: the admin shortcut\<close>

lemma split_nonempty: "split c s \<noteq> []"
  by (induction s) (auto split: list.splits)

lemma split_one_part: "c \<notin> set s \<Longrightarrow> split c s = [s]"
  by (induction s) auto

lemma split_first_part: "c \<notin> set x \<Longrightarrow> split c (x @ c # s) = x # split c s"
  by (induction x) auto

lemma parsePayloadPart_admin:
  "parsePayloadPart (btoa (JSON_stringify
     [(''nameid'', JString ''admin''), (''unique_name'', JString ''admin''),
      (''role'', JString ''Administrator''), (''exp'', JNumber e)]))
   = Some \<lparr>nameid = ''admin'', unique_name = ''admin'', role = ''Administrator'',
           exp_jwt = of_int e\<rparr>"
  by (simp add: parsePayloadPart_def base64UrlDecode_btoa JSON_parse_admin_payload
      asJwtPayload_admin)

lemma createAdminToken_parts:
  "split (CHR ''.'') (createAdminToken now)
   = [''eyJhbGciOiJIUzI1NiIsInR5cCI6IkpXVCJ9'',
      btoa (JSON_stringify
        [(''nameid'', JString ''admin''), (''unique_name'', JString ''admin''),
         (''role'', JString ''Administrator''),
         (''exp'', JNumber (now div 1000 + 86400))]),
      ''mockSignature'']"
proof -
  let ?h = "''eyJhbGciOiJIUzI1NiIsInR5cCI6IkpXVCJ9''"
  let ?p = "btoa (JSON_stringify
        [(''nameid'', JString ''admin''), (''unique_name'', JString ''admin''),
         (''role'', JString ''Administrator''),
         (''exp'', JNumber (now div 1000 + 86400))])"
  have token: "createAdminToken now = ?h @ CHR ''.'' # ?p @ CHR ''.'' # ''mockSignature''"
    by (simp add: createAdminToken_def)
  have h: "CHR ''.'' \<notin> set ?h" by simp
  have s: "CHR ''.'' \<notin> set ''mockSignature''" by simp
  have "split (CHR ''.'') (?h @ CHR ''.'' # ?p @ CHR ''.'' # ''mockSignature'')
      = ?h # split (CHR ''.'') (?p @ CHR ''.'' # ''mockSignature'')"
    by (rule split_first_part [OF h])
  also have "split (CHR ''.'') (?p @ CHR ''.'' # ''mockSignature'')
      = ?p # split (CHR ''.'') ''mockSignature''"
    by (rule split_first_part [OF btoa_no_dot])
  also have "split (CHR ''.'') ''mockSignature'' = [''mockSignature'']"
    by (rule split_one_part [OF s])
  finally show ?thesis unfolding token .
qed

lemma jwtDecode_createAdminToken:
  "jwtDecode parsePayloadPart (createAdminToken now)
   = Inr \<lparr>nameid = ''admin'', unique_name = ''admin'', role = ''Administrator'',
           exp_jwt = of_int (now div 1000 + 86400)\<rparr>"
  by (simp add: jwtDecode_def createAdminToken_parts parsePayloadPart_admin)

text \<open>
  C2. Submitting the login form with username "admin" and password "admin" mints a
  token locally: it has three dot-separated parts, and its payload decodes to subject
  "admin", display name "admin", role "Administrator" and an expiry instant of
  \<^verbatim>\<open>floor(now / 1000) + 86400\<close> seconds, 24 hours after the current second. Login
  with it succeeds: the state is authenticated with identity
  \<^verbatim>\<open>{id: "admin", username: "admin", role: "Administrator"}\<close>, the token is stored, the
  router is sent to \<^verbatim>\<open>/\<close>, and no request has been handed to the network, whatever the
  remote service would have answered.
\<close>

theorem C2_admin_login_is_local:
  "length (split (CHR ''.'') (createAdminToken now)) = 3
   \<and> jwtDecode parsePayloadPart (createAdminToken now)
       = Inr \<lparr>nameid = ''admin'', unique_name = ''admin'', role = ''Administrator'',
               exp_jwt = of_int (now div 1000) + 24 * 60 * 60\<rparr>
   \<and> handleSubmit parsePayloadPart env server now
        \<lparr>form_username = ''admin'', form_password = ''admin'', form_error = err,
         loading = busy\<rparr> a
       = (Inr (),
          \<lparr>form_username = ''admin'', form_password = ''admin'', form_error = None,
           loading = True\<rparr>,
          a\<lparr>localStorage := (localStorage a)(''token'' \<mapsto> createAdminToken now),
            location := ''/'',
            isAuthenticated := True,
            user := Some \<lparr>id_user = ''admin'', username = ''admin'',
                          role_user = ''Administrator''\<rparr>\<rparr>)
   \<and> sent (snd (snd (handleSubmit parsePayloadPart env server now
        \<lparr>form_username = ''admin'', form_password = ''admin'', form_error = err,
         loading = busy\<rparr> a))) = sent a"
proof -
  have login: "login parsePayloadPart (createAdminToken now) a
      = (Inr (), (setItem ''token'' (createAdminToken now) a)
                   \<lparr>isAuthenticated := True,
                    user := Some \<lparr>id_user = ''admin'', username = ''admin'',
                                  role_user = ''Administrator''\<rparr>\<rparr>)"
    by (simp add: login_def jwtDecode_createAdminToken userOf_def)
  have submit: "handleSubmit parsePayloadPart env server now
        \<lparr>form_username = ''admin'', form_password = ''admin'', form_error = err,
         loading = busy\<rparr> a
       = (Inr (),
          \<lparr>form_username = ''admin'', form_password = ''admin'', form_error = None,
           loading = True\<rparr>,
          a\<lparr>localStorage := (localStorage a)(''token'' \<mapsto> createAdminToken now),
            location := ''/'',
            isAuthenticated := True,
            user := Some \<lparr>id_user = ''admin'', username = ''admin'',
                          role_user = ''Administrator''\<rparr>\<rparr>)"
    by (simp add: handleSubmit_def login setItem_def)
  show ?thesis
    unfolding submit
    by (simp add: createAdminToken_parts jwtDecode_createAdminToken)
qed

text \<open>The token minted at \<^verbatim>\<open>Date.now() = 1700000000123\<close>, as a browser prints it.\<close>

lemma show_int_example: "show_int 1700086400 = ''1700086400''"
  by (simp add: show_int_def show_nat.simps char_of_def bit_0)

lemma createAdminToken_example:
  "createAdminToken 1700000000123
   = ''eyJhbGciOiJIUzI1NiIsInR5cCI6IkpXVCJ9.eyJuYW1laWQiOiJhZG1pbiIsInVuaXF1ZV9uYW1lIjoiYWRtaW4iLCJyb2xlIjoiQWRtaW5pc3RyYXRvciIsImV4cCI6MTcwMDA4NjQwMH0=.mockSignature''"
  by (simp add: createAdminToken_def JSON_stringify_def quote_def escape_char_def
      show_int_example b64_char_def b64_alphabet_def)

end
